theory Spec2Isabelle
  imports Complex_Main
begin

section \<open>Text: Python strings as lists of code points\<close>

text \<open>
  A Python \<open>str\<close> is a sequence of Unicode code points, so a string is a list of
  natural numbers. An ASCII literal of the source is written \<open>u ''...''\<close>.
\<close>

type_synonym ustring = "nat list"

definition u :: "string \<Rightarrow> ustring" where
  "u s = map of_char s"

text \<open>
  The white space of \<open>str.split()\<close>, \<open>str.strip()\<close> and the pattern \<open>\s\<close> (one
  test in CPython): U+0009..U+000D, U+001C..U+0020, U+0085, U+00A0, U+1680,
  U+2000..U+200A, U+2028, U+2029, U+202F, U+205F, U+3000.
\<close>

definition is_space :: "nat \<Rightarrow> bool" where
  "is_space c \<longleftrightarrow>
     (9 \<le> c \<and> c \<le> 13) \<or> (28 \<le> c \<and> c \<le> 32) \<or> c = 133 \<or> c = 160 \<or> c = 5760 \<or>
     (8192 \<le> c \<and> c \<le> 8202) \<or> c = 8232 \<or> c = 8233 \<or> c = 8239 \<or> c = 8287 \<or> c = 12288"

text \<open>
  The case mappings and the alphanumeric test come from the Unicode tables of the
  interpreter, which are not part of the program: they are a parameter.
  \<open>str_upper\<close> and \<open>str_lower\<close> work on whole strings (one code point may map to
  several), \<open>chr_isalnum\<close> on one code point.
\<close>

record unicode_ops =
  str_upper :: "ustring \<Rightarrow> ustring"
  str_lower :: "ustring \<Rightarrow> ustring"
  chr_isalnum :: "nat \<Rightarrow> bool"

text \<open>\<open>s.strip()\<close> and \<open>s.strip(chars)\<close>.\<close>

definition strip_by :: "(nat \<Rightarrow> bool) \<Rightarrow> ustring \<Rightarrow> ustring" where
  "strip_by P s = rev (dropWhile P (rev (dropWhile P s)))"

definition strip :: "ustring \<Rightarrow> ustring" where
  "strip s = strip_by is_space s"

definition strip_chars :: "ustring \<Rightarrow> ustring \<Rightarrow> ustring" where
  "strip_chars cs s = strip_by (\<lambda>c. c \<in> set cs) s"

text \<open>\<open>s.split(sep)\<close> for a one-character separator: a scan with the current piece.\<close>

fun split_acc :: "nat \<Rightarrow> ustring \<Rightarrow> ustring \<Rightarrow> ustring list" where
  "split_acc sep cur [] = [cur]"
| "split_acc sep cur (c # cs) =
     (if c = sep then cur # split_acc sep [] cs else split_acc sep (cur @ [c]) cs)"

definition split_on :: "nat \<Rightarrow> ustring \<Rightarrow> ustring list" where
  "split_on sep s = split_acc sep [] s"

text \<open>\<open>s.split()\<close>: pieces between runs of white space, no empty piece.\<close>

fun split_ws_acc :: "ustring \<Rightarrow> ustring \<Rightarrow> ustring list" where
  "split_ws_acc cur [] = (if cur = [] then [] else [cur])"
| "split_ws_acc cur (c # cs) =
     (if is_space c then (if cur = [] then split_ws_acc [] cs else cur # split_ws_acc [] cs)
      else split_ws_acc (cur @ [c]) cs)"

definition split_ws :: "ustring \<Rightarrow> ustring list" where
  "split_ws s = split_ws_acc [] s"

text \<open>\<open>' '.join(words)\<close>.\<close>

fun join_sp :: "ustring list \<Rightarrow> ustring" where
  "join_sp [] = []"
| "join_sp [w] = w"
| "join_sp (w # ws) = w @ 32 # join_sp ws"

text \<open>\<open>sub in s\<close> on strings.\<close>

fun is_prefix :: "'a list \<Rightarrow> 'a list \<Rightarrow> bool" where
  "is_prefix [] ys = True"
| "is_prefix (x # xs) [] = False"
| "is_prefix (x # xs) (y # ys) = (x = y \<and> is_prefix xs ys)"

fun contains :: "'a list \<Rightarrow> 'a list \<Rightarrow> bool" where
  "contains sub [] = (sub = [])"
| "contains sub (y # ys) = (is_prefix sub (y # ys) \<or> contains sub ys)"

section \<open>The cleanup pass: \<open>improve_grammar\<close> and \<open>clean_text\<close>\<close>

text \<open>
  \<open>re.sub(r'(\. )([a-z\<dots>])', lambda m: m.group(1) + m.group(2).upper(), text)\<close>, the
  class being the two ranges \<open>a-z\<close> (97..122) and U+0430..U+044F (1072..1103):
  a left-to-right scan over non-overlapping matches.
\<close>

definition in_lower_class :: "nat \<Rightarrow> bool" where
  "in_lower_class c \<longleftrightarrow> (97 \<le> c \<and> c \<le> 122) \<or> (1072 \<le> c \<and> c \<le> 1103)"

fun cap_after_period :: "unicode_ops \<Rightarrow> ustring \<Rightarrow> ustring" where
  "cap_after_period U (a # b # c # rest) =
     (if a = 46 \<and> b = 32 \<and> in_lower_class c
      then a # b # str_upper U [c] @ cap_after_period U rest
      else a # cap_after_period U (b # c # rest))"
| "cap_after_period U xs = xs"

text \<open>\<open>re.sub(r'\s+', ' ', text)\<close>: every maximal run of white space becomes one space.\<close>

function collapse_ws :: "ustring \<Rightarrow> ustring" where
  "collapse_ws [] = []"
| "collapse_ws (c # cs) =
     (if is_space c then 32 # collapse_ws (dropWhile is_space cs) else c # collapse_ws cs)"
  by pat_completeness auto
termination
  by (relation "measure length") (auto simp: less_Suc_eq_le length_dropWhile_le)

text \<open>
  \<open>re.sub(r'\s+([.!?,:;])', r'\1', text)\<close>: a run of white space is dropped when the
  character after the whole run is one of \<open>.!?,:;\<close>; the scan goes on after it.
\<close>

definition is_closing_punct :: "nat \<Rightarrow> bool" where
  "is_closing_punct c \<longleftrightarrow> c \<in> set (u ''.!?,:;'')"

function unspace_punct :: "ustring \<Rightarrow> ustring" where
  "unspace_punct [] = []"
| "unspace_punct (c # cs) =
     (if is_space c then
        (case dropWhile is_space cs of
           [] \<Rightarrow> c # unspace_punct cs
         | p # rest \<Rightarrow> if is_closing_punct p then p # unspace_punct rest
                       else c # unspace_punct cs)
      else c # unspace_punct cs)"
  by pat_completeness auto
termination
proof (relation "measure length")
  fix c :: nat and cs p rest
  assume "dropWhile is_space cs = p # rest"
  then have "Suc (length rest) \<le> length cs"
    using length_dropWhile_le [of is_space cs] by simp
  then show "(rest, c # cs) \<in> measure length" by simp
qed auto

text \<open>
  \<open>re.sub(r'\bi\b', 'I', text)\<close>: a word character is alphanumeric or \<open>_\<close>;
  \<open>\b\<close> holds between two positions of which exactly one is a word character,
  the outside of the string counting as none. The \<open>i\<close> (105) is replaced where
  \<open>\b\<close> holds on both sides. \<open>prev\<close> is the character before, in the text as it
  was.
\<close>

definition is_word :: "unicode_ops \<Rightarrow> nat option \<Rightarrow> bool" where
  "is_word U c = (case c of None \<Rightarrow> False | Some x \<Rightarrow> chr_isalnum U x \<or> x = 95)"

definition word_boundary :: "unicode_ops \<Rightarrow> nat option \<Rightarrow> nat option \<Rightarrow> bool" where
  "word_boundary U a b \<longleftrightarrow> is_word U a \<noteq> is_word U b"

fun fix_i :: "unicode_ops \<Rightarrow> nat option \<Rightarrow> ustring \<Rightarrow> ustring" where
  "fix_i U prev [] = []"
| "fix_i U prev (c # cs) =
     (if c = 105 \<and> word_boundary U prev (Some c)
           \<and> word_boundary U (Some c) (case cs of [] \<Rightarrow> None | n # _ \<Rightarrow> Some n)
      then 73 # fix_i U (Some c) cs
      else c # fix_i U (Some c) cs)"

definition capitalize_first :: "unicode_ops \<Rightarrow> ustring \<Rightarrow> ustring" where
  "capitalize_first U text =
     (if length text > 1 then str_upper U [hd text] @ tl text else str_upper U text)"

definition improve_grammar :: "unicode_ops \<Rightarrow> ustring \<Rightarrow> ustring" where
  "improve_grammar U text =
     (if text = [] then []
      else strip (fix_i U None (unspace_punct (collapse_ws
             (cap_after_period U (capitalize_first U text))))))"

text \<open>
  The filler loop of \<open>clean_text\<close>. \<open>ws\<close> is \<open>original_words[i:]\<close>;
  \<open>filler_match\<close> is the inner \<open>for filler_length in [3, 2, 1]\<close>, giving the first
  length whose phrase is a filler.
\<close>

definition word_key :: "unicode_ops \<Rightarrow> ustring \<Rightarrow> ustring" where
  "word_key U w = str_lower U (strip_chars (u ''.,!?;:\"()[]{}'') w)"

definition phrase_lower :: "unicode_ops \<Rightarrow> ustring list \<Rightarrow> ustring" where
  "phrase_lower U phrase_words = join_sp (map (word_key U) phrase_words)"

fun filler_match :: "unicode_ops \<Rightarrow> ustring set \<Rightarrow> ustring list \<Rightarrow> nat list \<Rightarrow> nat option" where
  "filler_match U fillers ws [] = None"
| "filler_match U fillers ws (n # ns) =
     (if n \<le> length ws \<and> phrase_lower U (take n ws) \<in> fillers then Some n
      else filler_match U fillers ws ns)"

fun drop_fillers :: "unicode_ops \<Rightarrow> ustring set \<Rightarrow> ustring list \<Rightarrow> ustring list" where
  "drop_fillers U fillers [] = []"
| "drop_fillers U fillers (w # rest) =
     (case filler_match U fillers (w # rest) [3, 2, 1] of
        Some n \<Rightarrow> drop_fillers U fillers (drop (n - 1) rest)
      | None \<Rightarrow> w # drop_fillers U fillers rest)"

text \<open>
  In \<open>drop_fillers\<close> the step \<open>i += filler_length\<close> reads \<open>drop (n - 1) rest\<close>: the
  lengths tried are 3, 2 and 1, and \<open>drop n (w # rest) = drop (n - 1) rest\<close> for them.
\<close>

definition clean_text :: "unicode_ops \<Rightarrow> ustring set \<Rightarrow> bool \<Rightarrow> ustring \<Rightarrow> ustring" where
  "clean_text U fillers remove_fillers text =
     (if text = [] then []
      else let original_words = split_ws text;
               kept = (if remove_fillers then drop_fillers U fillers original_words
                       else original_words)
           in improve_grammar U (join_sp kept))"

text \<open>The filler set built in \<open>__init__\<close>, without custom additions.\<close>

definition default_filler_words :: "ustring set" where
  "default_filler_words = set (map u
     [''um'', ''uh'', ''er'', ''ah'', ''like'', ''you know'', ''so'', ''well'',
      ''hmm'', ''okay'', ''right'', ''actually'', ''basically'', ''literally'',
      ''i mean'', ''sort of'', ''kind of'', ''you see''])"

text \<open>
  A table for evaluating examples. Its \<open>upper\<close> is the interpreter's on ASCII, on
  the Greek small letters U+03B1..U+03C9 and on the Cyrillic small letters
  U+0430..U+045F; its \<open>lower\<close> is the interpreter's on ASCII and on the Cyrillic
  capitals U+0400..U+042F (and on the Greek capitals but for the final sigma);
  other code points are left as they are and count as not alphanumeric.
\<close>

definition upper_cp :: "nat \<Rightarrow> nat" where
  "upper_cp c =
     (if 97 \<le> c \<and> c \<le> 122 then c - 32
      else if c = 962 then 931
      else if 945 \<le> c \<and> c \<le> 969 then c - 32
      else if 1072 \<le> c \<and> c \<le> 1103 then c - 32
      else if 1104 \<le> c \<and> c \<le> 1119 then c - 80
      else c)"

definition lower_cp :: "nat \<Rightarrow> nat" where
  "lower_cp c =
     (if 65 \<le> c \<and> c \<le> 90 then c + 32
      else if 913 \<le> c \<and> c \<le> 937 \<and> c \<noteq> 930 then c + 32
      else if 1040 \<le> c \<and> c \<le> 1071 then c + 32
      else if 1024 \<le> c \<and> c \<le> 1039 then c + 80
      else c)"

definition isalnum_cp :: "nat \<Rightarrow> bool" where
  "isalnum_cp c \<longleftrightarrow>
     (48 \<le> c \<and> c \<le> 57) \<or> (65 \<le> c \<and> c \<le> 90) \<or> (97 \<le> c \<and> c \<le> 122) \<or>
     (913 \<le> c \<and> c \<le> 937 \<and> c \<noteq> 930) \<or> (945 \<le> c \<and> c \<le> 969) \<or>
     (1024 \<le> c \<and> c \<le> 1119)"

definition basic_unicode :: unicode_ops where
  "basic_unicode =
     \<lparr>str_upper = map upper_cp, str_lower = map lower_cp, chr_isalnum = isalnum_cp\<rparr>"

section \<open>Keys and \<open>HotkeyParser\<close>\<close>

text \<open>
  The keys of the keyboard library: the members of its \<open>Key\<close> enumeration that the
  program names (the rest under \<open>Other\<close>), and key codes, which compare by their
  character when they have one and by their virtual key code otherwise.
\<close>

datatype key_name =
    Alt | Alt_l | Alt_r | Ctrl | Ctrl_l | Ctrl_r | Shift | Shift_l | Shift_r
  | Cmd | Cmd_l | Cmd_r | Space | Tab | Enter | Backspace | Delete | Esc
  | Other string

datatype key = Key key_name | KeyCode_vk nat | KeyCode_char nat

definition MODIFIER_MAP :: "(ustring \<times> key) list" where
  "MODIFIER_MAP =
     [(u ''ctrl'', Key Ctrl), (u ''control'', Key Ctrl), (u ''alt'', Key Alt),
      (u ''option'', Key Alt), (u ''shift'', Key Shift), (u ''cmd'', Key Cmd),
      (u ''win'', Key Cmd), (u ''super'', Key Cmd), (u ''meta'', Key Cmd)]"

definition SPECIAL_KEYS_MAP :: "(ustring \<times> key) list" where
  "SPECIAL_KEYS_MAP =
     [(u ''space'', Key Space), (u ''tab'', Key Tab), (u ''enter'', Key Enter),
      (u ''return'', Key Enter), (u ''backspace'', Key Backspace),
      (u ''delete'', Key Delete), (u ''esc'', Key Esc), (u ''escape'', Key Esc)]"

text \<open>
  \<open>re.match(r'^f([1-9]|1[0-9]|2[0-4])$', key_string)\<close> followed by
  \<open>int(key_string[1:])\<close>: the number of the function key, if the string is one.
  \<open>$\<close> also matches before one final newline, which \<open>int\<close> ignores.
\<close>

definition fn_key_number :: "ustring \<Rightarrow> nat option" where
  "fn_key_number s =
     (case s of
        [] \<Rightarrow> None
      | f # rest \<Rightarrow>
          if f \<noteq> 102 then None
          else (case (if rest \<noteq> [] \<and> last rest = 10 then butlast rest else rest) of
                  [d] \<Rightarrow> if 49 \<le> d \<and> d \<le> 57 then Some (d - 48) else None
                | [a, b] \<Rightarrow>
                    if a = 49 \<and> 48 \<le> b \<and> b \<le> 57 then Some (10 + (b - 48))
                    else if a = 50 \<and> 48 \<le> b \<and> b \<le> 52 then Some (20 + (b - 48))
                    else None
                | _ \<Rightarrow> None))"

definition parse_single_key :: "unicode_ops \<Rightarrow> ustring \<Rightarrow> key option" where
  "parse_single_key U key_string =
     (let key_string = strip (str_lower U key_string) in
      case map_of MODIFIER_MAP key_string of
        Some k \<Rightarrow> Some k
      | None \<Rightarrow>
         (case map_of SPECIAL_KEYS_MAP key_string of
            Some k \<Rightarrow> Some k
          | None \<Rightarrow>
             (case fn_key_number key_string of
                Some fn_num \<Rightarrow> Some (KeyCode_vk (111 + fn_num))
              | None \<Rightarrow>
                 if length key_string = 1 \<and> chr_isalnum U (hd key_string)
                 then Some (KeyCode_char (hd key_string))
                 else None)))"

text \<open>The \<open>parts\<close> of \<open>parse_hotkey\<close>, and its loop with the early return.\<close>

definition hotkey_parts :: "unicode_ops \<Rightarrow> ustring \<Rightarrow> ustring list" where
  "hotkey_parts U hotkey_string =
     map (\<lambda>part. str_lower U (strip part)) (split_on 43 hotkey_string)"

fun parse_parts :: "unicode_ops \<Rightarrow> ustring list \<Rightarrow> key set \<Rightarrow> key set option" where
  "parse_parts U [] keys = Some keys"
| "parse_parts U (part # parts) keys =
     (case parse_single_key U part of
        None \<Rightarrow> None
      | Some k \<Rightarrow> parse_parts U parts (insert k keys))"

definition parse_hotkey :: "unicode_ops \<Rightarrow> ustring \<Rightarrow> key set option" where
  "parse_hotkey U hotkey_string =
     (if hotkey_string = [] then None
      else let parts = hotkey_parts U hotkey_string in
        if parts = [] then None
        else (case parse_parts U parts {} of
                None \<Rightarrow> None
              | Some keys \<Rightarrow> if keys = {} then None else Some keys))"

definition validate_hotkey :: "unicode_ops \<Rightarrow> ustring \<Rightarrow> bool \<times> ustring" where
  "validate_hotkey U hotkey_string =
     (if hotkey_string = [] then (False, u ''Hotkey string cannot be empty'')
      else (case parse_hotkey U hotkey_string of
              None \<Rightarrow> (False, u ''Invalid hotkey format: '' @ [39] @ hotkey_string @ [39])
            | Some keys \<Rightarrow>
                if card keys = 0 then (False, u ''No valid keys found in hotkey string'')
                else if card keys > 4
                then (False, u ''Too many keys in combination (maximum 4)'')
                else (True, u ''Valid hotkey'')))"

section \<open>\<open>HotkeyManager\<close>\<close>

text \<open>
  A callback is a value of a type \<open>'cb\<close>; an absent callback is \<open>None\<close>. The
  dictionary \<open>hotkeys\<close> keeps insertion order, so it is an association list.
  What an operation does beyond changing the manager is returned as a list of
  effects: a callback handed to a new thread, the listener started or stopped.
\<close>

record 'cb hotkey_info =
  on_press :: "'cb option"
  on_release :: "'cb option"
  hotkey_string :: ustring
  is_active :: bool
  last_triggered :: nat

datatype listener_obj = Listener

record 'cb hotkey_manager =
  listener :: "listener_obj option"
  is_listening :: bool
  pressed_keys :: "key set"
  hotkeys :: "(key set \<times> 'cb hotkey_info) list"

datatype 'cb effect = Trigger_callback 'cb | Listener_start | Listener_stop

definition new_manager :: "'cb hotkey_manager" where
  "new_manager = \<lparr>listener = None, is_listening = False, pressed_keys = {}, hotkeys = []\<rparr>"

text \<open>\<open>d[k] = v\<close>: a key already there keeps its place, a new one goes last.\<close>

fun dict_set :: "'k \<Rightarrow> 'v \<Rightarrow> ('k \<times> 'v) list \<Rightarrow> ('k \<times> 'v) list" where
  "dict_set k v [] = [(k, v)]"
| "dict_set k v ((k', v') # rest) =
     (if k' = k then (k, v) # rest else (k', v') # dict_set k v rest)"

definition register_hotkey ::
  "unicode_ops \<Rightarrow> ustring \<Rightarrow> 'cb option \<Rightarrow> 'cb option \<Rightarrow> 'cb hotkey_manager
     \<Rightarrow> bool \<times> 'cb hotkey_manager" where
  "register_hotkey U hotkey_str cb_press cb_release m =
     (case parse_hotkey U hotkey_str of
        None \<Rightarrow> (False, m)
      | Some keys \<Rightarrow>
          (True, m\<lparr>hotkeys := dict_set keys
                     \<lparr>on_press = cb_press, on_release = cb_release,
                      hotkey_string = hotkey_str, is_active = False, last_triggered = 0\<rparr>
                     (hotkeys m)\<rparr>))"

fun normalize_key :: "key \<Rightarrow> key" where
  "normalize_key (Key Ctrl_l) = Key Ctrl"
| "normalize_key (Key Ctrl_r) = Key Ctrl"
| "normalize_key (Key Alt_l) = Key Alt"
| "normalize_key (Key Alt_r) = Key Alt"
| "normalize_key (Key Shift_l) = Key Shift"
| "normalize_key (Key Shift_r) = Key Shift"
| "normalize_key (Key Cmd_l) = Key Cmd"
| "normalize_key (Key Cmd_r) = Key Cmd"
| "normalize_key k = k"

definition trigger_callback :: "'cb option \<Rightarrow> 'cb effect list" where
  "trigger_callback cb = (case cb of None \<Rightarrow> [] | Some f \<Rightarrow> [Trigger_callback f])"

fun check_hotkey_matches ::
  "key set \<Rightarrow> (key set \<times> 'cb hotkey_info) list
     \<Rightarrow> 'cb effect list \<times> (key set \<times> 'cb hotkey_info) list" where
  "check_hotkey_matches pressed [] = ([], [])"
| "check_hotkey_matches pressed ((key_combination, info) # rest) =
     (let (fx, rest') = check_hotkey_matches pressed rest in
      if key_combination \<subseteq> pressed \<and> \<not> is_active info
      then (trigger_callback (on_press info) @ fx,
            (key_combination, info\<lparr>is_active := True\<rparr>) # rest')
      else (fx, (key_combination, info) # rest'))"

fun check_hotkey_releases ::
  "key set \<Rightarrow> (key set \<times> 'cb hotkey_info) list
     \<Rightarrow> 'cb effect list \<times> (key set \<times> 'cb hotkey_info) list" where
  "check_hotkey_releases pressed [] = ([], [])"
| "check_hotkey_releases pressed ((key_combination, info) # rest) =
     (let (fx, rest') = check_hotkey_releases pressed rest in
      if is_active info \<and> \<not> key_combination \<subseteq> pressed
      then (trigger_callback (on_release info) @ fx,
            (key_combination, info\<lparr>is_active := False\<rparr>) # rest')
      else (fx, (key_combination, info) # rest'))"

definition hm_on_press :: "key \<Rightarrow> 'cb hotkey_manager \<Rightarrow> 'cb effect list \<times> 'cb hotkey_manager" where
  "hm_on_press k m =
     (let pressed = insert (normalize_key k) (pressed_keys m);
          (fx, hk) = check_hotkey_matches pressed (hotkeys m)
      in (fx, m\<lparr>pressed_keys := pressed, hotkeys := hk\<rparr>))"

definition hm_on_release :: "key \<Rightarrow> 'cb hotkey_manager \<Rightarrow> 'cb effect list \<times> 'cb hotkey_manager" where
  "hm_on_release k m =
     (let pressed = pressed_keys m - {normalize_key k};
          (fx, hk) = check_hotkey_releases pressed (hotkeys m)
      in (fx, m\<lparr>pressed_keys := pressed, hotkeys := hk\<rparr>))"

definition start_listening :: "'cb hotkey_manager \<Rightarrow> 'cb effect list \<times> 'cb hotkey_manager" where
  "start_listening m =
     (if is_listening m then ([], m)
      else ([Listener_start], m\<lparr>listener := Some Listener, is_listening := True\<rparr>))"

definition stop_listening :: "'cb hotkey_manager \<Rightarrow> 'cb effect list \<times> 'cb hotkey_manager" where
  "stop_listening m =
     ((if listener m \<noteq> None then [Listener_stop] else []),
      m\<lparr>listener := None, is_listening := False, pressed_keys := {},
        hotkeys := map (\<lambda>(kc, info). (kc, info\<lparr>is_active := False\<rparr>)) (hotkeys m)\<rparr>)"

text \<open>The events the listener delivers, and a run of the manager over a list of them.\<close>

datatype key_event = Press key | Release key

fun handle_event :: "key_event \<Rightarrow> 'cb hotkey_manager \<Rightarrow> 'cb effect list \<times> 'cb hotkey_manager" where
  "handle_event (Press k) m = hm_on_press k m"
| "handle_event (Release k) m = hm_on_release k m"

fun run_events :: "'cb hotkey_manager \<Rightarrow> key_event list \<Rightarrow> 'cb effect list list \<times> 'cb hotkey_manager" where
  "run_events m [] = ([], m)"
| "run_events m (e # es) =
     (let (fx, m') = handle_event e m; (fxs, m'') = run_events m' es in (fx # fxs, m''))"

text \<open>
  The edge detector as the specification words it, with no active flag: a
  registration fires its press callback at an event after which its key set is a
  subset of the pressed keys and before which it was not, and its release
  callback at an event before which it was a subset and after which it is not.
\<close>

fun apply_event :: "key_event \<Rightarrow> key set \<Rightarrow> key set" where
  "apply_event (Press k) pressed = insert (normalize_key k) pressed"
| "apply_event (Release k) pressed = pressed - {normalize_key k}"

definition spec_edge_callbacks ::
  "(key set \<times> 'cb option \<times> 'cb option) list \<Rightarrow> key set \<Rightarrow> key set \<Rightarrow> 'cb effect list" where
  "spec_edge_callbacks regs before after =
     concat (map (\<lambda>(kc, cb_press, cb_release).
        if \<not> kc \<subseteq> before \<and> kc \<subseteq> after then trigger_callback cb_press
        else if kc \<subseteq> before \<and> \<not> kc \<subseteq> after then trigger_callback cb_release
        else []) regs)"

fun spec_run ::
  "(key set \<times> 'cb option \<times> 'cb option) list \<Rightarrow> key set \<Rightarrow> key_event list
     \<Rightarrow> 'cb effect list list" where
  "spec_run regs pressed [] = []"
| "spec_run regs pressed (e # es) =
     spec_edge_callbacks regs pressed (apply_event e pressed)
       # spec_run regs (apply_event e pressed) es"

definition registrations :: "'cb hotkey_manager \<Rightarrow> (key set \<times> 'cb option \<times> 'cb option) list" where
  "registrations m = map (\<lambda>(kc, info). (kc, on_press info, on_release info)) (hotkeys m)"

text \<open>
  The state the manager is in between events when it starts with no key down: a
  registration is active exactly when its key set is held.
\<close>

definition consistent :: "'cb hotkey_manager \<Rightarrow> bool" where
  "consistent m \<longleftrightarrow>
     (\<forall>(kc, info) \<in> set (hotkeys m). is_active info \<longleftrightarrow> kc \<subseteq> pressed_keys m)"

section \<open>\<open>VoiceTranscriber\<close>: recording, processing, cleanup\<close>

text \<open>
  Byte strings are \<open>string\<close>s. An exception is its message \<open>str(e)\<close>; a call
  that may raise returns \<open>exn + 'a\<close>. A float of the source (a time in seconds, the
  memory ceiling in megabytes) is finite and is the rational number it denotes. Log lines are a
  level and the message without its pictograph and its interpolated values.
\<close>

type_synonym bytes = string
type_synonym path = string

datatype exn = Exception string

datatype log_level = Debug | Info | Warning | Error

datatype routine = Start_recording | Stop_recording | Record_audio | Process_audio

record wav =
  nchannels :: nat
  sampwidth :: nat
  framerate :: nat
  frames :: bytes

datatype file_content = Raw bytes | Wave wav

type_synonym filesystem = "path \<rightharpoonup> file_content"

datatype action =
    Log log_level string
  | Start_thread routine
  | Api_call nat file_content
  | Backoff_wait nat
  | Type_text ustring
  | Hotkey "routine effect"

record config =
  chunk :: nat
  channels :: nat
  rate :: nat
  sample_size :: nat
  record_seconds :: int
  max_memory_mb :: rat
  filler_words :: "ustring set"
  remove_fillers :: bool

datatype stream_obj = Stream

record transcriber =
  is_recording :: bool
  audio_frames :: "bytes list"
  stream :: "stream_obj option"
  temp_files :: "path set"
  hotkey_manager :: "routine hotkey_manager"

text \<open>
  \<open>_cleanup_stream\<close>: stopping and closing are best effort, the field is reset.
\<close>

definition cleanup_stream :: "transcriber \<Rightarrow> transcriber" where
  "cleanup_stream st = (if stream st \<noteq> None then st\<lparr>stream := None\<rparr> else st)"

text \<open>
  What one pass of the \<open>while self.is_recording\<close> loop of \<open>_record_audio\<close> reads
  from outside: the flag at the loop head (another thread may clear it), the clock,
  the device information that \<open>_check_device_available\<close> asks for when the check is
  due (\<open>maxInputChannels\<close>, or an exception), the stream, and the clock again at
  the maximum-time check.
\<close>

record tick =
  flag_is_recording :: bool
  current_time :: rat
  device_info :: "exn + int"
  stream_is_active :: "exn + bool"
  stream_read :: "exn + bytes"
  time_after_read :: rat

record rec_locals =
  start_time :: rat
  last_device_check :: rat
  estimated_memory :: nat

datatype loop_exit =
    Flag_cleared | Device_unavailable | Stream_inactive | Memory_limit | Max_time
  | Read_error | Open_failed | Still_running

definition check_device_available :: "tick \<Rightarrow> bool" where
  "check_device_available t = (case device_info t of Inl e \<Rightarrow> False | Inr n \<Rightarrow> n > 0)"

text \<open>The inner \<open>except Exception as e\<close> of the loop.\<close>

fun on_read_exception ::
  "exn \<Rightarrow> rec_locals \<Rightarrow> bytes list
     \<Rightarrow> loop_exit option \<times> (log_level \<times> string) list \<times> rec_locals \<times> bytes list" where
  "on_read_exception (Exception msg) loc frs =
     (if contains ''Input overflowed'' msg
      then (None, [(Error, ''Error reading audio''),
                   (Warning, ''Input overflow detected, continuing recording'')], loc, frs)
      else (Some Read_error, [(Error, ''Error reading audio'')], loc, frs))"

text \<open>
  The source subtracts and multiplies floats, which rounds. The two operations
  are a parameter, on the rationals that the floats denote; comparing a float
  with an integer is exact.
\<close>

record float_ops =
  fsub :: "rat \<Rightarrow> rat \<Rightarrow> rat"
  fmul :: "rat \<Rightarrow> rat \<Rightarrow> rat"

text \<open>
  The body of the loop. The first component of the result is the reason of a
  \<open>break\<close>, or \<open>None\<close> when the loop goes on.
\<close>

definition loop_body ::
  "float_ops \<Rightarrow> config \<Rightarrow> tick \<Rightarrow> rec_locals \<Rightarrow> bytes list
     \<Rightarrow> loop_exit option \<times> (log_level \<times> string) list \<times> rec_locals \<times> bytes list" where
  "loop_body F cfg t loc frs =
     (let due = (fsub F (current_time t) (last_device_check loc) > 2) in
      if due \<and> \<not> check_device_available t
      then (Some Device_unavailable, [(Error, ''Audio device became unavailable'')], loc, frs)
      else
        let loc1 = (if due then loc\<lparr>last_device_check := current_time t\<rparr> else loc) in
        (case stream_is_active t of
           Inl e \<Rightarrow> on_read_exception e loc1 frs
         | Inr active \<Rightarrow>
            if \<not> active
            then (Some Stream_inactive, [(Error, ''Audio stream became inactive'')], loc1, frs)
            else
              (case stream_read t of
                 Inl e \<Rightarrow> on_read_exception e loc1 frs
               | Inr data \<Rightarrow>
                  let frs1 = frs @ [data];
                      loc2 = loc1\<lparr>estimated_memory := estimated_memory loc1 + length data\<rparr>
                  in
                  if of_nat (estimated_memory loc2) > fmul F (fmul F (max_memory_mb cfg) 1024) 1024
                  then (Some Memory_limit, [(Warning, ''Memory limit reached'')], loc2, frs1)
                  else if fsub F (time_after_read t) (start_time loc2) > of_int (record_seconds cfg)
                  then (Some Max_time, [(Info, ''Maximum recording time reached'')], loc2, frs1)
                  else (None, [], loc2, frs1))))"

text \<open>
  The loop over the passes that the environment gives. When they run out the loop
  is still running.
\<close>

fun record_loop ::
  "float_ops \<Rightarrow> config \<Rightarrow> tick list \<Rightarrow> rec_locals \<Rightarrow> bytes list
     \<Rightarrow> loop_exit \<times> (log_level \<times> string) list \<times> bytes list" where
  "record_loop F cfg [] loc frs = (Still_running, [], frs)"
| "record_loop F cfg (t # ts) loc frs =
     (if \<not> flag_is_recording t then (Flag_cleared, [], frs)
      else (case loop_body F cfg t loc frs of
              (Some ex, logs, loc', frs') \<Rightarrow> (ex, logs, frs')
            | (None, logs, loc', frs') \<Rightarrow>
                (let (ex, logs', out) = record_loop F cfg ts loc' frs'
                 in (ex, logs @ logs', out))))"

text \<open>
  The loop as far as a list of passes that all go on: its log lines, its local
  variables and the frames after them; \<open>None\<close> if one of them leaves the loop.
\<close>

fun run_passes ::
  "float_ops \<Rightarrow> config \<Rightarrow> tick list \<Rightarrow> rec_locals \<Rightarrow> bytes list
     \<Rightarrow> ((log_level \<times> string) list \<times> rec_locals \<times> bytes list) option" where
  "run_passes F cfg [] loc frs = Some ([], loc, frs)"
| "run_passes F cfg (t # ts) loc frs =
     (if \<not> flag_is_recording t then None
      else (case loop_body F cfg t loc frs of
              (Some ex, logs, loc', frs') \<Rightarrow> None
            | (None, logs, loc', frs') \<Rightarrow>
                (case run_passes F cfg ts loc' frs' of
                   None \<Rightarrow> None
                 | Some (logs', loc'', frs'') \<Rightarrow> Some (logs @ logs', loc'', frs''))))"

record record_env =
  open_result :: "exn + stream_obj"
  time_at_start :: rat
  time_at_first_check :: rat
  ticks :: "tick list"

text \<open>
  \<open>_record_audio\<close>. The loop leaves \<open>is_recording\<close> as it is: after a \<open>break\<close> it
  is still set, and it is clear when the loop ended because it was cleared. The
  \<open>finally\<close> clause closes the stream once the loop has ended.
\<close>

definition record_audio ::
  "float_ops \<Rightarrow> config \<Rightarrow> record_env \<Rightarrow> transcriber
     \<Rightarrow> loop_exit \<times> (log_level \<times> string) list \<times> transcriber" where
  "record_audio F cfg env st =
     (let st1 = cleanup_stream st in
      case open_result env of
        Inl e \<Rightarrow> (Open_failed, [(Error, ''Error during recording'')], cleanup_stream st1)
      | Inr strm \<Rightarrow>
          (let (ex, logs, frs) =
                 record_loop F cfg (ticks env)
                   \<lparr>start_time = time_at_start env,
                    last_device_check = time_at_first_check env,
                    estimated_memory = 0\<rparr> [];
               st2 = st1\<lparr>stream := Some strm, is_recording := (ex \<noteq> Flag_cleared),
                         audio_frames := frs\<rparr>
           in (ex, (Info, ''Recording...'') # logs,
               if ex = Still_running then st2 else cleanup_stream st2)))"

definition start_recording :: "transcriber \<Rightarrow> action list \<times> transcriber" where
  "start_recording st = ([Start_thread Record_audio], st)"

definition stop_recording :: "transcriber \<Rightarrow> action list \<times> transcriber" where
  "stop_recording st =
     (let st1 = cleanup_stream (st\<lparr>is_recording := False\<rparr>) in
      if audio_frames st1 = [] then ([Log Warning ''No audio data recorded''], st1)
      else ([Start_thread Process_audio], st1))"

text \<open>
  What \<open>_process_audio\<close> meets outside: the temporary file that
  \<open>NamedTemporaryFile\<close> creates (or its exception), whether writing the wave file
  raises, whether \<open>os.remove\<close> in the handler works, and the transcription service,
  which answers the \<open>n\<close>-th request for a file with a text or an exception.
\<close>

record process_env =
  tmp_create :: "exn + path"
  wave_write :: "exn option"
  remove_ok :: bool
  backend :: "nat \<Rightarrow> file_content \<Rightarrow> exn + ustring"

text \<open>
  \<open>save_audio_to_file\<close>. When \<open>NamedTemporaryFile\<close> raises, the handler reads
  \<open>temp_file\<close> before it was bound and raises itself.
\<close>

definition save_audio_to_file ::
  "config \<Rightarrow> process_env \<Rightarrow> transcriber \<Rightarrow> filesystem
     \<Rightarrow> (exn + path option) \<times> action list \<times> transcriber \<times> filesystem" where
  "save_audio_to_file cfg env st fs =
     (if audio_frames st = [] then (Inr None, [], st, fs)
      else (case tmp_create env of
              Inl e \<Rightarrow> (Inl (Exception ''UnboundLocalError''),
                         [Log Error ''Error saving audio file''], st, fs)
            | Inr name \<Rightarrow>
               (let st1 = st\<lparr>temp_files := insert name (temp_files st)\<rparr>;
                    fs1 = fs(name \<mapsto> Raw [])
                in case wave_write env of
                     Some e \<Rightarrow> (Inr None, [Log Error ''Error saving audio file''], st1,
                                 if remove_ok env then fs1(name := None) else fs1)
                   | None \<Rightarrow>
                       (Inr (Some name), [], st1,
                        fs1(name \<mapsto> Wave \<lparr>nchannels = channels cfg, sampwidth = sample_size cfg,
                                           framerate = rate cfg,
                                           frames = concat (audio_frames st)\<rparr>)))))"

text \<open>
  The body of \<open>transcribe_audio\<close>, attempt \<open>n\<close>: opening the file raises when it is
  not there; otherwise the service is asked.
\<close>

definition transcribe_attempt ::
  "process_env \<Rightarrow> filesystem \<Rightarrow> path \<Rightarrow> nat \<Rightarrow> action list \<times> (exn + ustring)" where
  "transcribe_attempt env fs audio_file_path n =
     (case fs audio_file_path of
        None \<Rightarrow> ([Log Error ''Error during transcription''], Inl (Exception ''FileNotFoundError''))
      | Some content \<Rightarrow>
          (case backend env n content of
             Inl e \<Rightarrow> ([Api_call n content, Log Error ''Error during transcription''], Inl e)
           | Inr text \<Rightarrow> ([Api_call n content, Log Info ''Raw transcription''], Inr text)))"

text \<open>
  The decorator \<open>@retry(stop=stop_after_attempt(3), wait=wait_exponential(\<dots>))\<close>:
  attempts are numbered from 1; an attempt that raises is followed by a wait and
  the next attempt, unless its number has reached the maximum, and then
  \<open>RetryError\<close> is raised.
\<close>

function retry_call ::
  "nat \<Rightarrow> nat \<Rightarrow> (nat \<Rightarrow> action list \<times> (exn + 'a)) \<Rightarrow> action list \<times> (exn + 'a)" where
  "retry_call max_attempts n body =
     (case body n of
        (fx, Inr v) \<Rightarrow> (fx, Inr v)
      | (fx, Inl e) \<Rightarrow>
          if n \<ge> max_attempts then (fx, Inl (Exception ''RetryError''))
          else (let (fx', r) = retry_call max_attempts (Suc n) body
                in (fx @ Backoff_wait n # fx', r)))"
  by pat_completeness auto
termination
  by (relation "measure (\<lambda>(max_attempts, n, body). max_attempts - n)") auto

declare retry_call.simps [simp del]

definition transcribe_audio ::
  "process_env \<Rightarrow> filesystem \<Rightarrow> path \<Rightarrow> action list \<times> (exn + ustring)" where
  "transcribe_audio env fs audio_file_path =
     retry_call 3 1 (transcribe_attempt env fs audio_file_path)"

text \<open>\<open>type_text\<close> is the hand-over to the injection of text: one action.\<close>

definition type_text :: "ustring \<Rightarrow> action list" where
  "type_text text = [Type_text text]"

text \<open>
  \<open>_process_audio\<close>. Its \<open>finally\<close> clause is \<open>pass\<close>: nothing is removed here.
\<close>

definition process_audio ::
  "config \<Rightarrow> unicode_ops \<Rightarrow> process_env \<Rightarrow> transcriber \<Rightarrow> filesystem
     \<Rightarrow> action list \<times> transcriber \<times> filesystem" where
  "process_audio cfg U env st fs =
     (case save_audio_to_file cfg env st fs of
        (Inl e, fx, st1, fs1) \<Rightarrow> (fx @ [Log Error ''Processing error''], st1, fs1)
      | (Inr None, fx, st1, fs1) \<Rightarrow> (fx @ [Log Error ''Failed to save audio file''], st1, fs1)
      | (Inr (Some audio_file), fx, st1, fs1) \<Rightarrow>
          (case transcribe_audio env fs1 audio_file of
             (fx', Inl e) \<Rightarrow> (fx @ fx' @ [Log Error ''Processing error''], st1, fs1)
           | (fx', Inr text) \<Rightarrow>
               if text = [] then (fx @ fx' @ [Log Warning ''No text transcribed''], st1, fs1)
               else (let cleaned_text = clean_text U (filler_words cfg) (remove_fillers cfg) text
                     in if cleaned_text \<noteq> []
                        then (fx @ fx' @ type_text cleaned_text, st1, fs1)
                        else (fx @ fx' @ [Log Warning ''No text to type after cleaning''],
                              st1, fs1))))"

text \<open>
  The release of the hotkey: \<open>stop_recording\<close>, and then the thread it started,
  if it started one.
\<close>

definition stop_recording_and_process ::
  "config \<Rightarrow> unicode_ops \<Rightarrow> process_env \<Rightarrow> transcriber \<Rightarrow> filesystem
     \<Rightarrow> action list \<times> transcriber \<times> filesystem" where
  "stop_recording_and_process cfg U env st fs =
     (let (fx, st1) = stop_recording st in
      if Start_thread Process_audio \<in> set fx
      then (let (fx', st2, fs') = process_audio cfg U env st1 fs in (fx @ fx', st2, fs'))
      else (fx, st1, fs))"

text \<open>
  \<open>cleanup\<close>, run when the program ends. \<open>terminate_raises\<close> says whether
  \<open>self.audio.terminate()\<close> raises, which skips the rest. The loop over
  \<open>temp_files\<close> runs while a \<open>_process_audio\<close> thread may still be at work, the
  one that \<open>stop_recording\<close> has just started among them: when such a thread
  adds a path to the set, the iteration raises; \<open>iteration_raises\<close> is then the
  set of the paths visited before, the other files stay and the error is logged.
  \<open>unremovable\<close> are the paths on which \<open>os.remove\<close> raises.
\<close>

record cleanup_env =
  terminate_raises :: bool
  iteration_raises :: "path set option"
  unremovable :: "path set"



text \<open>
  The pieces read while the loop ran: a pass adds the bytes it read when the
  stream was active and the read returned.
\<close>

definition tick_data :: "tick \<Rightarrow> bytes list" where
  "tick_data t =
     (case stream_is_active t of
        Inr True \<Rightarrow> (case stream_read t of Inr data \<Rightarrow> [data] | Inl e \<Rightarrow> [])
      | _ \<Rightarrow> [])"

text \<open>The numbers of the requests to the service among a list of actions.\<close>

fun api_calls :: "action list \<Rightarrow> nat list" where
  "api_calls [] = []"
| "api_calls (Api_call n c # fx) = n # api_calls fx"
| "api_calls (a # fx) = api_calls fx"

section \<open>Examples\<close>

text \<open>
  A listening manager with the registration \<open>ctrl+a\<close> of the application's two
  callbacks, and a sequence of events: left control down, \<open>a\<close> down, \<open>a\<close> again
  (auto-repeat), right control up, \<open>a\<close> up.
\<close>

definition m0 :: "routine hotkey_manager" where
  "m0 = \<lparr>listener = Some Listener, is_listening = True, pressed_keys = {},
         hotkeys = [({Key Ctrl, KeyCode_char 97},
                     \<lparr>on_press = Some Start_recording, on_release = Some Stop_recording,
                      hotkey_string = u ''ctrl+a'', is_active = False, last_triggered = 0\<rparr>)]\<rparr>"

definition evs0 :: "key_event list" where
  "evs0 = [Press (Key Ctrl_l), Press (KeyCode_char 97), Press (KeyCode_char 97),
           Release (Key Ctrl_r), Release (KeyCode_char 97)]"

text \<open>
  A configuration with the defaults of \<open>__init__\<close> and one with a ceiling of three
  bytes; states of the transcriber; passes of the recording loop that read some
  bytes, and one at which the device reports no input channel; a recording that
  loses its device after one chunk and one that passes the ceiling at its second
  chunk; a service that answers, one that fails twice and then answers, and one
  that always fails.
\<close>

definition cfg0 :: config where
  "cfg0 = \<lparr>chunk = 2048, channels = 1, rate = 16000, sample_size = 2, record_seconds = 30,
           max_memory_mb = 100, filler_words = default_filler_words, remove_fillers = True\<rparr>"

definition st_rec :: transcriber where
  "st_rec = \<lparr>is_recording = True, audio_frames = [''ab''], stream = None, temp_files = {},
             hotkey_manager = m0\<rparr>"

definition wav_ab :: file_content where
  "wav_ab = Wave \<lparr>nchannels = 1, sampwidth = 2, framerate = 16000, frames = ''ab''\<rparr>"

definition penv_flaky :: process_env where
  "penv_flaky = \<lparr>tmp_create = Inr ''/tmp/tmp1.wav'', wave_write = None, remove_ok = True,
     backend = (\<lambda>n c. if n < 3 then Inl (Exception ''rate limit'')
                       else Inr (u ''uh hello world''))\<rparr>"

definition penv_down :: process_env where
  "penv_down = \<lparr>tmp_create = Inr ''/tmp/tmp1.wav'', wave_write = None, remove_ok = True,
     backend = (\<lambda>n c. Inl (Exception ''connection error''))\<rparr>"

definition m1 :: "routine hotkey_manager" where
  "m1 = \<lparr>listener = Some Listener, is_listening = True,
         pressed_keys = {Key Ctrl, KeyCode_char 97},
         hotkeys = [({Key Ctrl, KeyCode_char 97},
                     \<lparr>on_press = Some Start_recording, on_release = Some Stop_recording,
                      hotkey_string = u ''ctrl+a'', is_active = True, last_triggered = 0\<rparr>)]\<rparr>"

definition cfg_small :: config where
  "cfg_small = cfg0\<lparr>max_memory_mb := 3 / 1048576\<rparr>"

definition tick_ok :: "rat \<Rightarrow> bytes \<Rightarrow> tick" where
  "tick_ok now data = \<lparr>flag_is_recording = True, current_time = now, device_info = Inr 1,
     stream_is_active = Inr True, stream_read = Inr data, time_after_read = now\<rparr>"

definition tick_lost :: "rat \<Rightarrow> tick" where
  "tick_lost now = \<lparr>flag_is_recording = True, current_time = now, device_info = Inr 0,
     stream_is_active = Inr True, stream_read = Inr ''cd'', time_after_read = now\<rparr>"

definition st_idle :: transcriber where
  "st_idle = \<lparr>is_recording = False, audio_frames = [], stream = None, temp_files = {},
              hotkey_manager = m0\<rparr>"

definition env_lost :: record_env where
  "env_lost = \<lparr>open_result = Inr Stream, time_at_start = 0, time_at_first_check = 0,
               ticks = [tick_ok 1 ''ab'', tick_lost 3]\<rparr>"

definition env_full :: record_env where
  "env_full = \<lparr>open_result = Inr Stream, time_at_start = 0, time_at_first_check = 0,
               ticks = [tick_ok 1 ''ab'', tick_ok 2 ''cd'', tick_ok 3 ''ef'']\<rparr>"

definition penv_ok :: process_env where
  "penv_ok = \<lparr>tmp_create = Inr ''/tmp/tmp1.wav'', wave_write = None, remove_ok = True,
     backend = (\<lambda>n c. Inr (u ''uh hello world''))\<rparr>"

definition cenv_ok :: cleanup_env where
  "cenv_ok = \<lparr>terminate_raises = False, iteration_raises = None, unremovable = {}\<rparr>"

text \<open>
  Exact arithmetic, which is that of the floats on the numbers of the examples
  (small integers and \<open>3 / 2 ^ 20\<close>).
\<close>

definition exact_floats :: float_ops where
  "exact_floats = \<lparr>fsub = (\<lambda>a b. a - b), fmul = (\<lambda>a b. a * b)\<rparr>"

section \<open>Lemmas\<close>

lemmas text_defs = u_def split_ws_def is_space_def phrase_lower_def word_key_def
  strip_chars_def strip_by_def basic_unicode_def lower_cp_def upper_cp_def improve_grammar_def
  capitalize_first_def in_lower_class_def is_closing_punct_def is_word_def word_boundary_def isalnum_cp_def
  strip_def

lemmas parser_defs = hotkey_parts_def split_on_def parse_single_key_def MODIFIER_MAP_def
  SPECIAL_KEYS_MAP_def fn_key_number_def

subsection \<open>The edge detector\<close>

lemma matches_registrations:
  "map (\<lambda>(kc, info). (kc, on_press info, on_release info)) (snd (check_hotkey_matches pressed hk)) =
   map (\<lambda>(kc, info). (kc, on_press info, on_release info)) hk"
  by (induction hk) (auto simp add: Let_def split: prod.splits)

lemma releases_registrations:
  "map (\<lambda>(kc, info). (kc, on_press info, on_release info)) (snd (check_hotkey_releases pressed hk)) =
   map (\<lambda>(kc, info). (kc, on_press info, on_release info)) hk"
  by (induction hk) (auto simp add: Let_def split: prod.splits)

lemma matches_consistent:
  assumes "\<forall>(kc, info) \<in> set hk. is_active info \<longleftrightarrow> kc \<subseteq> before" and "before \<subseteq> after"
  shows "\<forall>(kc, info) \<in> set (snd (check_hotkey_matches after hk)). is_active info \<longleftrightarrow> kc \<subseteq> after"
  using assms
proof (induction hk)
  case Nil
  then show ?case by simp
next
  case (Cons a hk)
  obtain kc info where a: "a = (kc, info)" by (cases a)
  have "is_active info \<Longrightarrow> kc \<subseteq> after"
    using Cons.prems a by auto
  then show ?case using Cons a by (auto simp add: case_prod_beta Let_def)
qed

lemma releases_consistent:
  assumes "\<forall>(kc, info) \<in> set hk. is_active info \<longleftrightarrow> kc \<subseteq> before" and "after \<subseteq> before"
  shows "\<forall>(kc, info) \<in> set (snd (check_hotkey_releases after hk)). is_active info \<longleftrightarrow> kc \<subseteq> after"
  using assms
proof (induction hk)
  case Nil
  then show ?case by simp
next
  case (Cons a hk)
  obtain kc info where a: "a = (kc, info)" by (cases a)
  have "kc \<subseteq> after \<Longrightarrow> is_active info"
    using Cons.prems a by auto
  then show ?case using Cons a by (auto simp add: case_prod_beta Let_def)
qed

lemma matches_effects:
  assumes "\<forall>(kc, info) \<in> set hk. is_active info \<longleftrightarrow> kc \<subseteq> before" and "before \<subseteq> after"
  shows "fst (check_hotkey_matches after hk) =
     spec_edge_callbacks (map (\<lambda>(kc, info). (kc, on_press info, on_release info)) hk) before after"
  using assms
proof (induction hk)
  case Nil
  then show ?case by (simp add: spec_edge_callbacks_def)
next
  case (Cons a hk)
  obtain kc info where a: "a = (kc, info)" by (cases a)
  have "is_active info \<longleftrightarrow> kc \<subseteq> before" "kc \<subseteq> before \<Longrightarrow> kc \<subseteq> after"
    using Cons.prems a by auto
  then show ?case using Cons a
    by (auto simp add: case_prod_beta Let_def spec_edge_callbacks_def)
qed

lemma releases_effects:
  assumes "\<forall>(kc, info) \<in> set hk. is_active info \<longleftrightarrow> kc \<subseteq> before" and "after \<subseteq> before"
  shows "fst (check_hotkey_releases after hk) =
     spec_edge_callbacks (map (\<lambda>(kc, info). (kc, on_press info, on_release info)) hk) before after"
  using assms
proof (induction hk)
  case Nil
  then show ?case by (simp add: spec_edge_callbacks_def)
next
  case (Cons a hk)
  obtain kc info where a: "a = (kc, info)" by (cases a)
  have "is_active info \<longleftrightarrow> kc \<subseteq> before" "kc \<subseteq> after \<Longrightarrow> kc \<subseteq> before"
    using Cons.prems a by auto
  then show ?case using Cons a
    by (auto simp add: case_prod_beta Let_def spec_edge_callbacks_def)
qed

lemma handle_event_pressed: "pressed_keys (snd (handle_event e m)) = apply_event e (pressed_keys m)"
  by (cases e) (simp_all add: hm_on_press_def hm_on_release_def Let_def case_prod_beta)

lemma handle_event_registrations: "registrations (snd (handle_event e m)) = registrations m"
proof (cases e)
  case (Press k)
  have "hotkeys (snd (hm_on_press k m)) =
        snd (check_hotkey_matches (insert (normalize_key k) (pressed_keys m)) (hotkeys m))"
    by (simp add: hm_on_press_def Let_def split: prod.splits)
  then show ?thesis using Press by (simp add: registrations_def matches_registrations)
next
  case (Release k)
  have "hotkeys (snd (hm_on_release k m)) =
        snd (check_hotkey_releases (pressed_keys m - {normalize_key k}) (hotkeys m))"
    by (simp add: hm_on_release_def Let_def split: prod.splits)
  then show ?thesis using Release by (simp add: registrations_def releases_registrations)
qed

lemma handle_event_consistent: "consistent m \<Longrightarrow> consistent (snd (handle_event e m))"
proof (cases e)
  case (Press k)
  assume "consistent m"
  then show ?thesis
    using matches_consistent [of "hotkeys m" "pressed_keys m" "insert (normalize_key k) (pressed_keys m)"] Press
    by (simp add: consistent_def hm_on_press_def Let_def case_prod_beta subset_insertI)
next
  case (Release k)
  assume "consistent m"
  then show ?thesis
    using releases_consistent [of "hotkeys m" "pressed_keys m" "pressed_keys m - {normalize_key k}"] Release
    by (simp add: consistent_def hm_on_release_def Let_def case_prod_beta)
qed

lemma handle_event_effects:
  "consistent m \<Longrightarrow>
   fst (handle_event e m) = spec_edge_callbacks (registrations m) (pressed_keys m) (apply_event e (pressed_keys m))"
proof (cases e)
  case (Press k)
  assume "consistent m"
  then show ?thesis
    using matches_effects [of "hotkeys m" "pressed_keys m" "insert (normalize_key k) (pressed_keys m)"] Press
    by (simp add: consistent_def hm_on_press_def Let_def case_prod_beta subset_insertI registrations_def)
next
  case (Release k)
  assume "consistent m"
  then show ?thesis
    using releases_effects [of "hotkeys m" "pressed_keys m" "pressed_keys m - {normalize_key k}"] Release
    by (simp add: consistent_def hm_on_release_def Let_def case_prod_beta registrations_def)
qed

subsection \<open>The parser\<close>

lemma parse_parts_unresolved:
  "\<exists>p \<in> set parts. parse_single_key U p = None \<Longrightarrow> parse_parts U parts keys = None"
  by (induction parts arbitrary: keys) (auto split: option.splits)

lemma parse_parts_resolved:
  "\<forall>p \<in> set parts. parse_single_key U p \<noteq> None \<Longrightarrow>
   parse_parts U parts keys = Some (keys \<union> (\<lambda>p. the (parse_single_key U p)) ` set parts)"
  by (induction parts arbitrary: keys) (auto split: option.splits)

lemma split_acc_nonempty: "split_acc sep cur s \<noteq> []"
  by (induction s arbitrary: cur) auto

lemma hotkey_parts_nonempty: "hotkey_parts U s \<noteq> []"
  by (simp add: hotkey_parts_def split_on_def split_acc_nonempty)

lemma dict_set_lookup: "map_of (dict_set k v d) k = Some v"
  by (induction d) auto

subsection \<open>The retrying call\<close>

lemma api_calls_append: "api_calls (xs @ ys) = api_calls xs @ api_calls ys"
  by (induction xs rule: api_calls.induct) auto

lemma attempt_calls: "length (api_calls (fst (transcribe_attempt env fs p n))) \<le> 1"
  by (simp add: transcribe_attempt_def split: option.splits sum.splits)

lemma retry_call_bound:
  "(\<forall>k. length (api_calls (fst (body k))) \<le> 1) \<Longrightarrow>
   length (api_calls (fst (retry_call m n body))) \<le> Suc (m - n)"
proof (induction m n body rule: retry_call.induct)
  case (1 m n body)
  obtain fx r where b: "body n = (fx, r)" by (cases "body n")
  have l: "length (api_calls fx) \<le> 1" using "1.prems" b by (metis fst_conv)
  show ?case
  proof (cases r)
    case (Inr v)
    then show ?thesis using b l by (simp add: retry_call.simps [of m n body])
  next
    case (Inl e)
    show ?thesis
    proof (cases "n \<ge> m")
      case True
      then show ?thesis using b l Inl by (simp add: retry_call.simps [of m n body])
    next
      case False
      have "length (api_calls (fst (retry_call m (Suc n) body))) \<le> Suc (m - Suc n)"
        using "1.IH" [OF b [symmetric] Inl False "1.prems"] by simp
      then show ?thesis using b l Inl False
        by (simp add: retry_call.simps [of m n body] case_prod_beta api_calls_append)
    qed
  qed
qed

subsection \<open>The recording loop\<close>

lemma on_read_exception_cases:
  "on_read_exception e loc frs = (r, logs, loc', frs') \<Longrightarrow>
   loc' = loc \<and> frs' = frs \<and> (r = None \<or> r = Some Read_error)"
  by (cases e) (auto split: if_splits)

lemma loop_body_continue:
  assumes "loop_body F cfg t loc frs = (None, logs, loc', frs')"
  shows "frs' = frs @ tick_data t \<and>
         estimated_memory loc' = estimated_memory loc + length (concat (tick_data t))"
  using assms
  by (auto simp: loop_body_def Let_def tick_data_def split: if_splits sum.splits
      dest: on_read_exception_cases)

lemma loop_body_device_lost:
  assumes "fsub F (current_time t) (last_device_check loc) > 2"
    and "\<not> check_device_available t"
  shows "loop_body F cfg t loc frs =
     (Some Device_unavailable, [(Error, ''Audio device became unavailable'')], loc, frs)"
  using assms by (simp add: loop_body_def)


lemma run_passes_state:
  "run_passes F cfg pre loc frs = Some (l, loc', frs') \<Longrightarrow>
   frs' = frs @ concat (map tick_data pre) \<and>
   estimated_memory loc' = estimated_memory loc + length (concat (concat (map tick_data pre)))"
proof (induction pre arbitrary: loc frs l)
  case Nil
  then show ?case by simp
next
  case (Cons t pre)
  from Cons.prems have flag: "flag_is_recording t" by (auto split: if_splits)
  obtain r l1 loc1 frs1 where b: "loop_body F cfg t loc frs = (r, l1, loc1, frs1)"
    by (cases "loop_body F cfg t loc frs") auto
  from Cons.prems flag b have r: "r = None" by (cases r) auto
  from Cons.prems flag b r obtain l2 where
    rest: "run_passes F cfg pre loc1 frs1 = Some (l2, loc', frs')"
    by (auto split: option.splits)
  show ?case
    using Cons.IH [OF rest] loop_body_continue [OF b [unfolded r]] by simp
qed

lemma record_loop_after_passes:
  "run_passes F cfg pre loc frs = Some (l, loc', frs') \<Longrightarrow>
   record_loop F cfg (pre @ ts) loc frs =
     (case record_loop F cfg ts loc' frs' of (ex, l', out) \<Rightarrow> (ex, l @ l', out))"
proof (induction pre arbitrary: loc frs l)
  case Nil
  then show ?case by (simp add: case_prod_beta)
next
  case (Cons t pre)
  from Cons.prems have flag: "flag_is_recording t" by (auto split: if_splits)
  obtain r l1 loc1 frs1 where b: "loop_body F cfg t loc frs = (r, l1, loc1, frs1)"
    by (cases "loop_body F cfg t loc frs") auto
  from Cons.prems flag b have r: "r = None" by (cases r) auto
  from Cons.prems flag b r obtain l2 where
    rest: "run_passes F cfg pre loc1 frs1 = Some (l2, loc', frs')" and l: "l = l1 @ l2"
    by (auto split: option.splits)
  show ?case
    using Cons.IH [OF rest] flag b r l by (simp add: case_prod_beta)
qed

lemma record_audio_after_passes:
  assumes "open_result env = Inr strm" and "ticks env = pre @ t # rest"
    and "run_passes F cfg pre
           \<lparr>start_time = time_at_start env, last_device_check = time_at_first_check env,
            estimated_memory = 0\<rparr> [] = Some (l, loc, frs)"
    and "flag_is_recording t"
    and "loop_body F cfg t loc frs = (Some ex, l', loc', frs')"
    and "ex \<noteq> Still_running" and "ex \<noteq> Flag_cleared"
  shows "record_audio F cfg env st =
     (ex, (Info, ''Recording...'') # l @ l',
      st\<lparr>stream := None, is_recording := True, audio_frames := frs'\<rparr>)"
  using assms record_loop_after_passes [OF assms(3), of "t # rest"]
  by (simp add: record_audio_def cleanup_stream_def)

subsection \<open>Registration keeps the manager consistent\<close>

lemma parse_parts_keeps_keys: "parse_parts U parts keys = Some ks \<Longrightarrow> keys \<subseteq> ks"
  by (induction parts arbitrary: keys) (auto split: option.splits)

lemma parse_hotkey_nonempty: "parse_hotkey U s = Some ks \<Longrightarrow> ks \<noteq> {}"
  by (auto simp add: parse_hotkey_def Let_def split: if_splits option.splits)

lemma dict_set_entries: "set (dict_set k v d) \<subseteq> insert (k, v) (set d)"
  by (induction d) (auto split: if_splits)

lemma register_hotkey_consistent:
  assumes "pressed_keys m = {}" and "consistent m"
  shows "consistent (snd (register_hotkey U s cb_press cb_release m))"
proof (cases "parse_hotkey U s")
  case None
  then show ?thesis using assms by (simp add: register_hotkey_def)
next
  case (Some ks)
  then have "ks \<noteq> {}" by (rule parse_hotkey_nonempty)
  then show ?thesis
    using assms Some dict_set_entries [of ks _ "hotkeys m"]
    by (fastforce simp add: register_hotkey_def consistent_def)
qed

subsection \<open>The pipeline\<close>

lemma process_audio_failed:
  assumes "save_audio_to_file cfg env st fs0 = (Inr (Some p), fx0, st1, fs)"
    and "snd (transcribe_audio env fs p) = Inl e"
  shows "process_audio cfg U env st fs0 =
     (fx0 @ fst (transcribe_audio env fs p) @ [Log Error ''Processing error''], st1, fs)"
  using assms by (cases "transcribe_audio env fs p") (auto simp add: process_audio_def)

lemma transcribe_audio_first_call:
  "fs p = Some c \<Longrightarrow> \<exists>fx. fst (transcribe_audio env fs p) = Api_call 1 c # fx"
  by (cases "backend env 1 c")
     (simp_all add: transcribe_audio_def transcribe_attempt_def retry_call.simps [of 3 "Suc 0"]
        case_prod_beta)

lemma save_audio_to_file_written:
  assumes "audio_frames st \<noteq> []" "tmp_create env = Inr p" "wave_write env = None"
  shows "save_audio_to_file cfg env st fs =
     (Inr (Some p), [], st\<lparr>temp_files := insert p (temp_files st)\<rparr>,
      fs(p \<mapsto> Wave \<lparr>nchannels = channels cfg, sampwidth = sample_size cfg,
                      framerate = rate cfg, frames = concat (audio_frames st)\<rparr>))"
  using assms by (simp add: save_audio_to_file_def)


lemma process_audio_first_call:
  assumes "audio_frames st \<noteq> []" "tmp_create env = Inr p" "wave_write env = None"
  shows "\<exists>fx. fst (process_audio cfg U env st fs) =
     Api_call 1 (Wave \<lparr>nchannels = channels cfg, sampwidth = sample_size cfg,
                      framerate = rate cfg, frames = concat (audio_frames st)\<rparr>) # fx"
proof -
  let ?c = "Wave \<lparr>nchannels = channels cfg, sampwidth = sample_size cfg,
                      framerate = rate cfg, frames = concat (audio_frames st)\<rparr>"
  let ?fs = "fs(p \<mapsto> ?c)"
  obtain fx where fx: "fst (transcribe_audio env ?fs p) = Api_call 1 ?c # fx"
    using transcribe_audio_first_call [of ?fs p ?c env] by auto
  obtain a r where t: "transcribe_audio env ?fs p = (a, r)" by (cases "transcribe_audio env ?fs p")
  with fx have a: "a = Api_call 1 ?c # fx" by simp
  show ?thesis
    using save_audio_to_file_written [OF assms, of cfg fs] t a
    by (cases r) (simp_all add: process_audio_def Let_def)
qed



subsection \<open>The examples\<close>

lemmas example_defs = cfg0_def cfg_small_def tick_ok_def tick_lost_def st_idle_def env_lost_def
  env_full_def penv_ok_def penv_down_def cenv_ok_def st_rec_def wav_ab_def exact_floats_def

lemmas recorder_defs = record_audio_def loop_body_def check_device_available_def
  cleanup_stream_def Let_def

lemma record_audio_env_lost:
  "record_audio exact_floats cfg0 env_lost st_idle =
     (Device_unavailable,
      [(Info, ''Recording...''), (Error, ''Audio device became unavailable'')],
      st_idle\<lparr>is_recording := True, audio_frames := [''ab'']\<rparr>)"
  by (simp add: recorder_defs example_defs)

lemma process_audio_penv_ok:
  "process_audio cfg0 basic_unicode penv_ok (st_idle\<lparr>audio_frames := [''ab'']\<rparr>) Map.empty =
     ([Api_call 1 wav_ab, Log Info ''Raw transcription'', Type_text (u ''Hello world'')],
      st_idle\<lparr>audio_frames := [''ab''], temp_files := {''/tmp/tmp1.wav''}\<rparr>,
      [''/tmp/tmp1.wav'' \<mapsto> wav_ab])"
proof -
  have c: "clean_text basic_unicode default_filler_words True (u ''uh hello world'') = u ''Hello world''"
    by (simp add: clean_text_def default_filler_words_def text_defs)
  have n: "u ''uh hello world'' \<noteq> []" "u ''Hello world'' \<noteq> []" by (simp_all add: u_def)
  show ?thesis
    using c n
    by (simp add: process_audio_def save_audio_to_file_def transcribe_audio_def
        transcribe_attempt_def retry_call.simps [of 3 "Suc 0"] type_text_def
        cfg0_def penv_ok_def st_idle_def wav_ab_def)
qed



section \<open>The claims\<close>

text \<open>
  C4. For every registered combination and every sequence of press and release
  events, the press callback fires exactly once at the event at which the
  combination's key set becomes a subset of the pressed keys (repeated presses
  while it is active fire nothing), and the release callback fires exactly once at
  the event at which the key set stops being a subset. From a state in which each
  registration is active exactly when its keys are held (such as the state with no
  key down and nothing active), the callbacks that the manager triggers, event by
  event, are those of the edge detector of the specification, and the state stays
  of that kind.
\<close>

theorem callbacks_fire_at_edges:
  assumes "consistent m"
  shows "fst (run_events m evs) = spec_run (registrations m) (pressed_keys m) evs
         \<and> consistent (snd (run_events m evs))"
  using assms
proof (induction evs arbitrary: m)
  case Nil
  then show ?case by simp
next
  case (Cons e evs)
  have c: "consistent (snd (handle_event e m))"
    using Cons.prems by (rule handle_event_consistent)
  show ?case
    using Cons.IH [OF c] handle_event_effects [OF Cons.prems, of e]
    by (simp add: case_prod_beta Let_def handle_event_pressed handle_event_registrations)
qed

theorem callbacks_fire_at_edges_witness:
  "consistent m0 \<and>
   fst (run_events m0 evs0) =
     [[], [Trigger_callback Start_recording], [], [Trigger_callback Stop_recording], []]"
proof -
  have h: "consistent m0" by (simp add: consistent_def m0_def)
  have "spec_run (registrations m0) (pressed_keys m0) evs0 =
     [[], [Trigger_callback Start_recording], [], [Trigger_callback Stop_recording], []]"
    by (simp add: registrations_def m0_def evs0_def spec_edge_callbacks_def trigger_callback_def)
  then show ?thesis using h callbacks_fire_at_edges [OF h, of evs0] by simp
qed

text \<open>
  C7. When one of the \<open>+\<close>-separated tokens of a configuration string resolves to
  no key, parsing fails as a whole, and registering the string reports failure and
  leaves the manager as it was.
\<close>

theorem unresolved_token_fails_parse:
  assumes "\<exists>p \<in> set (hotkey_parts U s). parse_single_key U p = None"
  shows "parse_hotkey U s = None \<and> register_hotkey U s cb_press cb_release m = (False, m)"
  using parse_parts_unresolved [OF assms]
  by (simp add: parse_hotkey_def register_hotkey_def Let_def)

theorem unresolved_token_fails_parse_witness:
  "parse_single_key basic_unicode (u ''foo'') = None \<and>
   u ''foo'' \<in> set (hotkey_parts basic_unicode (u ''Ctrl + foo'')) \<and>
   parse_hotkey basic_unicode (u ''Ctrl + foo'') = None \<and>
   register_hotkey basic_unicode (u ''Ctrl + foo'') (Some Start_recording) (Some Stop_recording) m0 = (False, m0)"
proof -
  have a: "parse_single_key basic_unicode (u ''foo'') = None"
    by (simp add: parser_defs text_defs)
  have b: "u ''foo'' \<in> set (hotkey_parts basic_unicode (u ''Ctrl + foo''))"
    by (simp add: parser_defs text_defs)
  from a b have "\<exists>p \<in> set (hotkey_parts basic_unicode (u ''Ctrl + foo'')).
      parse_single_key basic_unicode p = None" by blast
  from unresolved_token_fails_parse [OF this, of "Some Start_recording" "Some Stop_recording" m0] a b
  show ?thesis by simp
qed

text \<open>
  C10. \<open>register_hotkey\<close> does not enforce the maximum of four keys: for every
  string whose tokens all resolve, whatever the number of distinct keys, it returns
  success and stores the combination; only \<open>validate_hotkey\<close>, which it does not
  call, rejects more than four keys. (The case mapping leaves the empty string
  empty.)
\<close>

theorem register_ignores_key_limit:
  assumes "\<forall>p \<in> set (hotkey_parts U s). parse_single_key U p \<noteq> None"
    and "str_lower U [] = []"
  shows "\<exists>keys. keys = (\<lambda>p. the (parse_single_key U p)) ` set (hotkey_parts U s) \<and>
      parse_hotkey U s = Some keys \<and>
      register_hotkey U s cb_press cb_release m =
        (True, m\<lparr>hotkeys := dict_set keys
                   \<lparr>on_press = cb_press, on_release = cb_release, hotkey_string = s,
                    is_active = False, last_triggered = 0\<rparr> (hotkeys m)\<rparr>) \<and>
      map_of (hotkeys (snd (register_hotkey U s cb_press cb_release m))) keys =
        Some \<lparr>on_press = cb_press, on_release = cb_release, hotkey_string = s,
              is_active = False, last_triggered = 0\<rparr> \<and>
      validate_hotkey U s =
        (if card keys > 4 then (False, u ''Too many keys in combination (maximum 4)'')
         else (True, u ''Valid hotkey''))"
proof -
  let ?keys = "(\<lambda>p. the (parse_single_key U p)) ` set (hotkey_parts U s)"
  have empty: "parse_single_key U [] = None"
    using assms(2)
    by (simp add: parse_single_key_def strip_def strip_by_def MODIFIER_MAP_def
        SPECIAL_KEYS_MAP_def fn_key_number_def u_def)
  have ne: "s \<noteq> []"
  proof
    assume "s = []"
    then have "hotkey_parts U s = [[]]"
      using assms(2) by (simp add: hotkey_parts_def split_on_def strip_def strip_by_def)
    then show False using assms(1) empty by simp
  qed
  have nonempty: "?keys \<noteq> {}"
    using hotkey_parts_nonempty [of U s] by simp
  have fin: "finite ?keys" by simp
  then have card: "card ?keys \<noteq> 0" using nonempty by simp
  have parse: "parse_hotkey U s = Some ?keys"
    using parse_parts_resolved [OF assms(1), of "{}"] ne nonempty hotkey_parts_nonempty [of U s]
    by (simp add: parse_hotkey_def Let_def)
  show ?thesis
    using parse ne card
    by (simp add: register_hotkey_def validate_hotkey_def dict_set_lookup)
qed

theorem register_ignores_key_limit_witness:
  "map (parse_single_key basic_unicode) (hotkey_parts basic_unicode (u ''ctrl+alt+shift+cmd+a'')) =
     [Some (Key Ctrl), Some (Key Alt), Some (Key Shift), Some (Key Cmd), Some (KeyCode_char 97)] \<and>
   parse_hotkey basic_unicode (u ''ctrl+alt+shift+cmd+a'') =
     Some {Key Ctrl, Key Alt, Key Shift, Key Cmd, KeyCode_char 97} \<and>
   fst (register_hotkey basic_unicode (u ''ctrl+alt+shift+cmd+a'') (Some Start_recording) (Some Stop_recording)
          (new_manager :: routine hotkey_manager)) \<and>
   map_of (hotkeys (snd (register_hotkey basic_unicode (u ''ctrl+alt+shift+cmd+a'')
          (Some Start_recording) (Some Stop_recording) (new_manager :: routine hotkey_manager))))
      {Key Ctrl, Key Alt, Key Shift, Key Cmd, KeyCode_char 97} \<noteq> None \<and>
   validate_hotkey basic_unicode (u ''ctrl+alt+shift+cmd+a'') =
     (False, u ''Too many keys in combination (maximum 4)'')"
proof -
  let ?s = "u ''ctrl+alt+shift+cmd+a''"
  have parts: "hotkey_parts basic_unicode ?s = [u ''ctrl'', u ''alt'', u ''shift'', u ''cmd'', u ''a'']"
    by (simp add: parser_defs text_defs)
  have keys: "map (parse_single_key basic_unicode) [u ''ctrl'', u ''alt'', u ''shift'', u ''cmd'', u ''a'']
     = [Some (Key Ctrl), Some (Key Alt), Some (Key Shift), Some (Key Cmd), Some (KeyCode_char 97)]"
    by (simp add: parser_defs text_defs)
  have h: "\<forall>p \<in> set (hotkey_parts basic_unicode ?s). parse_single_key basic_unicode p \<noteq> None"
    using keys by (simp add: parts)
  have l: "str_lower basic_unicode [] = []" by (simp add: basic_unicode_def)
  have img: "(\<lambda>p. the (parse_single_key basic_unicode p)) ` set (hotkey_parts basic_unicode ?s)
      = {Key Ctrl, Key Alt, Key Shift, Key Cmd, KeyCode_char 97}"
    using keys by (simp add: parts)
  have card: "card {Key Ctrl, Key Alt, Key Shift, Key Cmd, KeyCode_char 97} = 5" by simp
  from register_ignores_key_limit [OF h l, of "Some Start_recording" "Some Stop_recording" new_manager]
  show ?thesis using keys by (simp add: parts img card dict_set_lookup)
qed

text \<open>
  C1 (amended). When a pass of the recording loop finds the periodic check of the
  device due and the device unavailable (no input channel, or an exception), the
  loop ends there with an error line and the stream is torn down; no abort is
  recorded, and the chunks read in the passes before stay in \<open>audio_frames\<close>.
  \<open>stop_recording\<close> then starts the processing thread whenever there is at least
  one chunk, and the first request to the service carries exactly these chunks.
  Only when no chunk was read is nothing handed on.
\<close>

theorem device_loss_frames_still_processed:
  assumes "open_result env = Inr strm" and "ticks env = pre @ t # rest"
    and "run_passes F cfg pre
           \<lparr>start_time = time_at_start env, last_device_check = time_at_first_check env,
            estimated_memory = 0\<rparr> [] = Some (l, loc, frs)"
    and "flag_is_recording t"
    and "fsub F (current_time t) (last_device_check loc) > 2"
    and "\<not> check_device_available t"
  shows "record_audio F cfg env st =
           (Device_unavailable,
            (Info, ''Recording...'') # l @ [(Error, ''Audio device became unavailable'')],
            st\<lparr>stream := None, is_recording := True, audio_frames := frs\<rparr>) \<and>
         frs = concat (map tick_data pre) \<and>
         stop_recording (st\<lparr>stream := None, is_recording := True, audio_frames := frs\<rparr>) =
           (if frs = [] then [Log Warning ''No audio data recorded'']
            else [Start_thread Process_audio],
            st\<lparr>stream := None, is_recording := False, audio_frames := frs\<rparr>) \<and>
         (frs = [] \<longrightarrow>
            stop_recording_and_process cfg U penv
                (st\<lparr>stream := None, is_recording := True, audio_frames := frs\<rparr>) fs =
              ([Log Warning ''No audio data recorded''],
               st\<lparr>stream := None, is_recording := False, audio_frames := frs\<rparr>, fs)) \<and>
         (frs \<noteq> [] \<and> tmp_create penv = Inr p \<and> wave_write penv = None \<longrightarrow>
            (\<exists>fx. fst (stop_recording_and_process cfg U penv
                  (st\<lparr>stream := None, is_recording := True, audio_frames := frs\<rparr>) fs) =
               Start_thread Process_audio #
               Api_call 1 (Wave \<lparr>nchannels = channels cfg, sampwidth = sample_size cfg,
                                framerate = rate cfg, frames = concat frs\<rparr>) # fx))"
proof -
  let ?st = "st\<lparr>stream := None, is_recording := True, audio_frames := frs\<rparr>"
  let ?st' = "st\<lparr>stream := None, is_recording := False, audio_frames := frs\<rparr>"
  have run: "record_audio F cfg env st =
           (Device_unavailable,
            (Info, ''Recording...'') # l @ [(Error, ''Audio device became unavailable'')], ?st)"
    using record_audio_after_passes [OF assms(1-4) loop_body_device_lost [OF assms(5,6)]]
    by simp
  have frs: "frs = concat (map tick_data pre)"
    using run_passes_state [OF assms(3)] by simp
  have stop: "stop_recording ?st =
           (if frs = [] then [Log Warning ''No audio data recorded'']
            else [Start_thread Process_audio], ?st')"
    by (simp add: stop_recording_def cleanup_stream_def)
  have none: "frs = [] \<longrightarrow>
      stop_recording_and_process cfg U penv ?st fs =
        ([Log Warning ''No audio data recorded''], ?st', fs)"
    by (simp add: stop_recording_and_process_def stop_recording_def cleanup_stream_def)
  have handed: "frs \<noteq> [] \<and> tmp_create penv = Inr p \<and> wave_write penv = None \<longrightarrow>
            (\<exists>fx. fst (stop_recording_and_process cfg U penv ?st fs) =
               Start_thread Process_audio #
               Api_call 1 (Wave \<lparr>nchannels = channels cfg, sampwidth = sample_size cfg,
                                framerate = rate cfg, frames = concat frs\<rparr>) # fx)"
  proof
    assume h: "frs \<noteq> [] \<and> tmp_create penv = Inr p \<and> wave_write penv = None"
    then have "audio_frames ?st' \<noteq> []" by simp
    from process_audio_first_call [OF this, of penv p cfg U fs] h
    obtain fx where "fst (process_audio cfg U penv ?st' fs) =
       Api_call 1 (Wave \<lparr>nchannels = channels cfg, sampwidth = sample_size cfg,
                        framerate = rate cfg, frames = concat frs\<rparr>) # fx"
      by auto
    then show "\<exists>fx. fst (stop_recording_and_process cfg U penv ?st fs) =
               Start_thread Process_audio #
               Api_call 1 (Wave \<lparr>nchannels = channels cfg, sampwidth = sample_size cfg,
                                framerate = rate cfg, frames = concat frs\<rparr>) # fx"
      using stop h by (simp add: stop_recording_and_process_def case_prod_beta)
  qed
  show ?thesis using run frs stop none handed by blast
qed

theorem device_loss_frames_still_processed_witness:
  "record_audio exact_floats cfg0 env_lost st_idle =
     (Device_unavailable,
      [(Info, ''Recording...''), (Error, ''Audio device became unavailable'')],
      st_idle\<lparr>is_recording := True, audio_frames := [''ab'']\<rparr>) \<and>
   device_info (tick_lost 3) = Inr 0 \<and>
   stop_recording (st_idle\<lparr>is_recording := True, audio_frames := [''ab'']\<rparr>) =
     ([Start_thread Process_audio], st_idle\<lparr>audio_frames := [''ab'']\<rparr>) \<and>
   hd (tl (fst (stop_recording_and_process cfg0 basic_unicode penv_ok
       (st_idle\<lparr>is_recording := True, audio_frames := [''ab'']\<rparr>) Map.empty))) = Api_call 1 wav_ab"
proof -
  let ?loc = "\<lparr>start_time = 0, last_device_check = 0, estimated_memory = 2\<rparr>"
  have a: "open_result env_lost = Inr Stream" by (simp add: example_defs)
  have b: "ticks env_lost = [tick_ok 1 ''ab''] @ tick_lost 3 # []" by (simp add: example_defs)
  have c: "run_passes exact_floats cfg0 [tick_ok 1 ''ab'']
           \<lparr>start_time = time_at_start env_lost,
            last_device_check = time_at_first_check env_lost,
            estimated_memory = 0\<rparr> [] = Some ([], ?loc, [''ab''])"
    by (simp add: recorder_defs example_defs)
  have d: "flag_is_recording (tick_lost 3)" by (simp add: example_defs)
  have e: "fsub exact_floats (current_time (tick_lost 3)) (last_device_check ?loc) > 2"
    by (simp add: example_defs)
  have f: "\<not> check_device_available (tick_lost 3)"
    by (simp add: example_defs check_device_available_def)
  have g: "tmp_create penv_ok = Inr ''/tmp/tmp1.wav'' \<and> wave_write penv_ok = None"
    by (simp add: example_defs)
  have i: "device_info (tick_lost 3) = Inr 0" by (simp add: example_defs)
  have s: "st_idle\<lparr>stream := None, is_recording := True, audio_frames := [''ab'']\<rparr> =
           st_idle\<lparr>is_recording := True, audio_frames := [''ab'']\<rparr>"
          "st_idle\<lparr>stream := None, is_recording := False, audio_frames := [''ab'']\<rparr> =
           st_idle\<lparr>audio_frames := [''ab'']\<rparr>"
    by (simp_all add: st_idle_def)
  from device_loss_frames_still_processed [OF a b c d e f, where st = st_idle and penv = penv_ok
      and p = "''/tmp/tmp1.wav''" and fs = Map.empty and U = basic_unicode] g
  have "record_audio exact_floats cfg0 env_lost st_idle =
     (Device_unavailable,
      [(Info, ''Recording...''), (Error, ''Audio device became unavailable'')],
      st_idle\<lparr>is_recording := True, audio_frames := [''ab'']\<rparr>) \<and>
     stop_recording (st_idle\<lparr>is_recording := True, audio_frames := [''ab'']\<rparr>) =
     ([Start_thread Process_audio], st_idle\<lparr>audio_frames := [''ab'']\<rparr>) \<and>
     (\<exists>fx. fst (stop_recording_and_process cfg0 basic_unicode penv_ok
       (st_idle\<lparr>is_recording := True, audio_frames := [''ab'']\<rparr>) Map.empty) =
        Start_thread Process_audio # Api_call 1 wav_ab # fx)"
    by (simp add: s cfg0_def wav_ab_def tick_data_def tick_ok_def)
  then show ?thesis using i by auto
qed

text \<open>
  The claim as stated fails: one chunk is read, the device check at the next pass
  reports zero input channels, and the release of the hotkey sends that chunk to
  the service and types the text.
\<close>

theorem device_loss_no_blob_counterexample:
  "fst (record_audio exact_floats cfg0 env_lost st_idle) = Device_unavailable \<and>
   device_info (ticks env_lost ! 1) = Inr 0 \<and>
   fst (stop_recording_and_process cfg0 basic_unicode penv_ok
         (snd (snd (record_audio exact_floats cfg0 env_lost st_idle))) Map.empty) =
     [Start_thread Process_audio, Api_call 1 wav_ab, Log Info ''Raw transcription'',
      Type_text (u ''Hello world'')]"
proof -
  have s: "stop_recording (st_idle\<lparr>is_recording := True, audio_frames := [''ab'']\<rparr>) =
     ([Start_thread Process_audio], st_idle\<lparr>audio_frames := [''ab'']\<rparr>)"
    by (simp add: stop_recording_def cleanup_stream_def st_idle_def)
  have d: "device_info (ticks env_lost ! 1) = Inr 0" by (simp add: example_defs)
  show ?thesis
    using d by (simp add: record_audio_env_lost stop_recording_and_process_def s
        process_audio_penv_ok)
qed

text \<open>
  C2 (amended). For the transcript \<open>uh hello world\<close> and the default fillers the
  cleanup pass returns exactly \<open>Hello world\<close>: the filler is removed and the first
  letter capitalised; no period is appended.
\<close>

theorem cleanup_hello_world:
  "clean_text basic_unicode default_filler_words True (u ''uh hello world'') = u ''Hello world''"
  by (simp add: clean_text_def default_filler_words_def text_defs)

text \<open>The claim as stated fails: the result is not \<open>Hello world.\<close> with a period.\<close>

theorem cleanup_appends_no_period_counterexample:
  "clean_text basic_unicode default_filler_words True (u ''uh hello world'') \<noteq> u ''Hello world.''"
  by (simp add: clean_text_def default_filler_words_def text_defs)






text \<open>
  C6. The transcription makes at most three requests. When the service fails
  twice and answers the third request, the answer is returned after exactly the
  requests 1, 2 and 3. When it fails three times, \<open>RetryError\<close> is raised after
  exactly these three requests, and \<open>_process_audio\<close> reports a processing error
  and does nothing more.
\<close>

theorem transcription_retry_three_attempts:
  assumes "fs p = Some c"
  shows "length (api_calls (fst (transcribe_audio env fs p))) \<le> 3 \<and>
    (backend env 1 c = Inl e1 \<and> backend env 2 c = Inl e2 \<and> backend env 3 c = Inr transcript \<longrightarrow>
       snd (transcribe_audio env fs p) = Inr transcript \<and>
       api_calls (fst (transcribe_audio env fs p)) = [1, 2, 3]) \<and>
    (backend env 1 c = Inl e1 \<and> backend env 2 c = Inl e2 \<and> backend env 3 c = Inl e3 \<longrightarrow>
       snd (transcribe_audio env fs p) = Inl (Exception ''RetryError'') \<and>
       api_calls (fst (transcribe_audio env fs p)) = [1, 2, 3] \<and>
       (save_audio_to_file cfg env st fs0 = (Inr (Some p), fx0, st1, fs) \<longrightarrow>
          process_audio cfg U env st fs0 =
            (fx0 @ fst (transcribe_audio env fs p) @ [Log Error ''Processing error''], st1, fs)))"
proof (intro conjI impI)
  show "length (api_calls (fst (transcribe_audio env fs p))) \<le> 3"
    using retry_call_bound [of "transcribe_attempt env fs p" 3 1] attempt_calls [of env fs p]
    by (simp add: transcribe_audio_def)
next
  assume "backend env 1 c = Inl e1 \<and> backend env 2 c = Inl e2 \<and> backend env 3 c = Inr transcript"
  then have r: "transcribe_audio env fs p =
      ([Api_call 1 c, Log Error ''Error during transcription'', Backoff_wait 1,
        Api_call 2 c, Log Error ''Error during transcription'', Backoff_wait 2,
        Api_call 3 c, Log Info ''Raw transcription''], Inr transcript)"
    using assms
    by (simp add: transcribe_audio_def transcribe_attempt_def
        numeral_2_eq_2 numeral_3_eq_3 retry_call.simps [of _ "Suc 0"]
        retry_call.simps [of _ "Suc (Suc 0)"] retry_call.simps [of _ "Suc (Suc (Suc 0))"])
  show "snd (transcribe_audio env fs p) = Inr transcript" by (simp add: r)
  show "api_calls (fst (transcribe_audio env fs p)) = [1, 2, 3]" by (simp add: r)
next
  assume "backend env 1 c = Inl e1 \<and> backend env 2 c = Inl e2 \<and> backend env 3 c = Inl e3"
  then have r: "transcribe_audio env fs p =
      ([Api_call 1 c, Log Error ''Error during transcription'', Backoff_wait 1,
        Api_call 2 c, Log Error ''Error during transcription'', Backoff_wait 2,
        Api_call 3 c, Log Error ''Error during transcription''],
       Inl (Exception ''RetryError''))"
    using assms
    by (simp add: transcribe_audio_def transcribe_attempt_def
        numeral_2_eq_2 numeral_3_eq_3 retry_call.simps [of _ "Suc 0"]
        retry_call.simps [of _ "Suc (Suc 0)"] retry_call.simps [of _ "Suc (Suc (Suc 0))"])
  show "snd (transcribe_audio env fs p) = Inl (Exception ''RetryError'')" by (simp add: r)
  show "api_calls (fst (transcribe_audio env fs p)) = [1, 2, 3]" by (simp add: r)
  assume "save_audio_to_file cfg env st fs0 = (Inr (Some p), fx0, st1, fs)"
  then show "process_audio cfg U env st fs0 =
            (fx0 @ fst (transcribe_audio env fs p) @ [Log Error ''Processing error''], st1, fs)"
    using process_audio_failed [of cfg env st fs0 p fx0 st1 fs _ U] r by simp
qed

theorem transcription_retry_three_attempts_witness:
  "snd (transcribe_audio penv_flaky [''/tmp/tmp1.wav'' \<mapsto> wav_ab] ''/tmp/tmp1.wav'')
     = Inr (u ''uh hello world'') \<and>
   api_calls (fst (transcribe_audio penv_flaky [''/tmp/tmp1.wav'' \<mapsto> wav_ab] ''/tmp/tmp1.wav''))
     = [1, 2, 3] \<and>
   snd (transcribe_audio penv_down [''/tmp/tmp1.wav'' \<mapsto> wav_ab] ''/tmp/tmp1.wav'')
     = Inl (Exception ''RetryError'') \<and>
   api_calls (fst (transcribe_audio penv_down [''/tmp/tmp1.wav'' \<mapsto> wav_ab] ''/tmp/tmp1.wav''))
     = [1, 2, 3] \<and>
   api_calls (fst (process_audio cfg0 basic_unicode penv_down st_rec Map.empty)) = [1, 2, 3] \<and>
   last (fst (process_audio cfg0 basic_unicode penv_down st_rec Map.empty))
     = Log Error ''Processing error''"
proof -
  let ?fs = "[''/tmp/tmp1.wav'' \<mapsto> wav_ab]"
  let ?p = "''/tmp/tmp1.wav''"
  have f: "?fs ?p = Some wav_ab" by simp
  have a: "backend penv_flaky 1 wav_ab = Inl (Exception ''rate limit'') \<and>
           backend penv_flaky 2 wav_ab = Inl (Exception ''rate limit'') \<and>
           backend penv_flaky 3 wav_ab = Inr (u ''uh hello world'')"
    by (simp add: penv_flaky_def)
  have b: "backend penv_down 1 wav_ab = Inl (Exception ''connection error'') \<and>
           backend penv_down 2 wav_ab = Inl (Exception ''connection error'') \<and>
           backend penv_down 3 wav_ab = Inl (Exception ''connection error'')"
    by (simp add: penv_down_def)
  have s: "save_audio_to_file cfg0 penv_down st_rec Map.empty =
      (Inr (Some ?p), [], st_rec\<lparr>temp_files := {?p}\<rparr>, ?fs)"
    by (simp add: save_audio_to_file_def penv_down_def st_rec_def cfg0_def wav_ab_def)
  from transcription_retry_three_attempts [where fs = "?fs" and p = "?p" and c = wav_ab and env = penv_flaky
      and ?e1.0 = "Exception ''rate limit''" and ?e2.0 = "Exception ''rate limit''"
      and transcript = "u ''uh hello world''"] f a
  have 1: "snd (transcribe_audio penv_flaky ?fs ?p) = Inr (u ''uh hello world'') \<and>
      api_calls (fst (transcribe_audio penv_flaky ?fs ?p)) = [1, 2, 3]" by simp
  from transcription_retry_three_attempts [where fs = "?fs" and p = "?p" and c = wav_ab and env = penv_down
      and ?e1.0 = "Exception ''connection error''" and ?e2.0 = "Exception ''connection error''"
      and ?e3.0 = "Exception ''connection error''" and cfg = cfg0 and st = st_rec
      and ?fs0.0 = Map.empty and ?fx0.0 = "[]" and ?st1.0 = "st_rec\<lparr>temp_files := {?p}\<rparr>"
      and U = basic_unicode] f b s
  have 2: "snd (transcribe_audio penv_down ?fs ?p) = Inl (Exception ''RetryError'') \<and>
      api_calls (fst (transcribe_audio penv_down ?fs ?p)) = [1, 2, 3] \<and>
      process_audio cfg0 basic_unicode penv_down st_rec Map.empty =
        (fst (transcribe_audio penv_down ?fs ?p) @ [Log Error ''Processing error''],
         st_rec\<lparr>temp_files := {?p}\<rparr>, ?fs)" by simp
  show ?thesis using 1 2 by (simp add: api_calls_append)
qed

text \<open>
  C8. Starting a manager that is listening changes nothing and has no effect, so
  starting twice is starting once. Stopping leaves no pressed key and no active
  registration and triggers no callback; a second stop changes nothing and has no
  effect at all.
\<close>

theorem listener_start_stop_idempotent:
  "(is_listening m \<longrightarrow> start_listening m = ([], m)) \<and>
   start_listening (snd (start_listening m)) = ([], snd (start_listening m)) \<and>
   pressed_keys (snd (stop_listening m)) = {} \<and>
   (\<forall>(kc, info) \<in> set (hotkeys (snd (stop_listening m))). \<not> is_active info) \<and>
   (\<forall>cb. Trigger_callback cb \<notin> set (fst (stop_listening m))) \<and>
   stop_listening (snd (stop_listening m)) = ([], snd (stop_listening m))"
  by (auto simp add: start_listening_def stop_listening_def case_prod_beta o_def)

theorem listener_start_stop_idempotent_witness:
  "is_listening m1 \<and> start_listening m1 = ([], m1) \<and>
   stop_listening m1 = ([Listener_stop], m0\<lparr>listener := None, is_listening := False\<rparr>) \<and>
   stop_listening (snd (stop_listening m1)) = ([], m0\<lparr>listener := None, is_listening := False\<rparr>)"
proof -
  have a: "is_listening m1" by (simp add: m1_def)
  have b: "stop_listening m1 = ([Listener_stop], m0\<lparr>listener := None, is_listening := False\<rparr>)"
    by (simp add: stop_listening_def m1_def m0_def)
  show ?thesis using listener_start_stop_idempotent [of m1] a b by simp
qed

text \<open>
  C9. The claim that capitalisation after \<open>". "\<close> works in any script fails on the
  code: the pattern only admits \<open>a-z\<close> and U+0430..U+044F. In a Greek text the
  first letter is capitalised and the letter after the period is not, although
  \<open>upper\<close> has a capital for it; the same for the Cyrillic letter U+0451.
\<close>

theorem capitalization_after_period_two_ranges_only:
  "improve_grammar basic_unicode [945, 946, 46, 32, 947, 948] = [913, 946, 46, 32, 947, 948] \<and>
   str_upper basic_unicode [947] = [915] \<and>
   improve_grammar basic_unicode [1105, 1078, 46, 32, 1105, 1078]
     = [1025, 1078, 46, 32, 1105, 1078]"
  by (simp add: text_defs)

end
